theory Spec2Isabelle
  imports Complex_Main "HOL-Library.Sublist" "HOL-Library.Multiset"
begin

section \<open>Paddock Pal: retrieval, context assembly, answer synthesis, provisioning\<close>

text \<open>
  A shallow embedding of \<^verbatim>\<open>Streamlit/paddockpal1.py\<close>, of the credential handling of
  \<^verbatim>\<open>Streamlit/informationpage.py\<close> and of the start of \<^verbatim>\<open>Streamlit/landing.py\<close>.

  The hosted services (OpenAI, Pinecone) are parameters: a record \<open>services\<close> of functions
  that answer a call with a value or with an exception. The two string methods of the
  Python runtime whose result depends on the Unicode character tables, \<^verbatim>\<open>str.lower\<close> and
  \<^verbatim>\<open>str.strip\<close>, are parameters in the same record, so that every statement holds for
  the methods as the runtime has them. Every function of the source that
  talks to the outside returns its result together with the list of events (API calls and
  printed lines) it caused, in order. Exceptions are values of type \<open>error\<close>; a
  \<^verbatim>\<open>try/except Exception\<close> of the source is the \<open>Inl\<close> branch of a case distinction.
\<close>

subsection \<open>Data\<close>

datatype error = ValueError | KeyError | IndexError | ApiError string

type_synonym embedding = "real list"

text \<open>
  A Python string is the sequence of the bytes of its UTF-8 encoding. Equality, emptiness,
  concatenation and containment (\<^verbatim>\<open>in\<close>) of strings are those of the byte sequences.
\<close>

text \<open>
  A match is the dictionary the vector index returns. The code reads three things of it:
  \<^verbatim>\<open>match["metadata"]\<close> (KeyError when absent), \<^verbatim>\<open>metadata.get("text", "")\<close> and
  \<^verbatim>\<open>match.get("score", 0)\<close>. A metadata dictionary is represented by the value of its
  \<^verbatim>\<open>"text"\<close> key, \<open>None\<close> when the key is absent. Scores are floats that compare
  (no NaN), taken as reals.
\<close>

type_synonym metadata = "string option"

record match =
  match_id :: string
  score :: "real option"
  metadata :: "metadata option"

record chat_message =
  role :: string
  content :: string

datatype message =
    Created_index string
  | Index_already_exists string
  | Connecting_to_host string
  | Error_generating_embeddings error
  | Error_querying_index string error
  | Processing_query string
  | Failed_to_generate_query_embeddings
  | Searching_index string
  | Results_from string "match list"
  | Error_generating_answer error

datatype event =
    Print message
  | List_indexes
  | Create_index string nat string string "string option"
  | Index_handle string string
  | Embedding_create string string
  | Index_query string embedding nat bool
  | ChatCompletion_create string "chat_message list" nat real
  | Ui_run

text \<open>
  The hosted services. \<open>embedding_api input model\<close> is \<^verbatim>\<open>openai.Embedding.create\<close>: the
  embeddings of \<^verbatim>\<open>response["data"]\<close>, or the exception raised.
  \<open>query_api index host vector top_k\<close> is \<^verbatim>\<open>index.query\<close>: the value of the response's
  \<^verbatim>\<open>"matches"\<close> key (\<open>None\<close> when the key is absent), or the exception raised.
  \<open>chat_api model messages max_tokens temperature\<close> is \<^verbatim>\<open>openai.ChatCompletion.create\<close>:
  the message contents of \<^verbatim>\<open>response["choices"]\<close>, or the exception raised.
  \<open>str_lower\<close> is \<^verbatim>\<open>str.lower\<close> and \<open>str_strip\<close> is \<^verbatim>\<open>str.strip\<close> without
  arguments, both as the Python runtime computes them on every string.
\<close>

record services =
  embedding_api :: "string \<Rightarrow> string \<Rightarrow> error + embedding list"
  query_api :: "string \<Rightarrow> string \<Rightarrow> embedding \<Rightarrow> nat \<Rightarrow> error + match list option"
  chat_api :: "string \<Rightarrow> chat_message list \<Rightarrow> nat \<Rightarrow> real \<Rightarrow> error + string list"
  str_lower :: "string \<Rightarrow> string"
  str_strip :: "string \<Rightarrow> string"

text \<open>The module globals read from the environment (\<^verbatim>\<open>os.getenv\<close> gives \<open>None\<close> when unset).\<close>

record config =
  OPENAI_API_KEY :: "string option"
  PINECONE_API_KEY :: "string option"
  PINECONE_ENVIRONMENT :: "string option"

type_synonym environ = "string \<rightharpoonup> string"

subsection \<open>Module initialisation and index provisioning\<close>

definition load_config :: "environ \<Rightarrow> config" where
  "load_config env =
     \<lparr>OPENAI_API_KEY = env ''OPENAI_API_KEY'',
      PINECONE_API_KEY = env ''PINECONE_API_KEY'',
      PINECONE_ENVIRONMENT = env ''PINECONE_ENV''\<rparr>"

text \<open>Python's \<^verbatim>\<open>not v\<close> for a value that is \<^verbatim>\<open>None\<close> or a string.\<close>

definition falsy :: "string option \<Rightarrow> bool" where
  "falsy v = (case v of None \<Rightarrow> True | Some s \<Rightarrow> s = [])"

definition INDEX_NAMES :: "string list" where
  "INDEX_NAMES =
     [''sporting-regulations-embeddings'',
      ''technical-regulations-embeddings'',
      ''financial-regulations-embeddings'']"

definition INDEX_HOSTS :: "string \<rightharpoonup> string" where
  "INDEX_HOSTS = map_of
     [(''sporting-regulations-embeddings'',
       ''sporting-regulations-embeddings-jl357j9.svc.aped-4627-b74a.pinecone.io''),
      (''technical-regulations-embeddings'',
       ''technical-regulations-embeddings-jl357j9.svc.aped-4627-b74a.pinecone.io''),
      (''financial-regulations-embeddings'',
       ''financial-regulations-embeddings-jl357j9.svc.aped-4627-b74a.pinecone.io'')]"

text \<open>
  \<open>ensure_index_exists\<close> takes the names the vector service lists
  (\<^verbatim>\<open>pinecone_client.list_indexes().names()\<close>) and returns them after the call: a
  \<^verbatim>\<open>create_index\<close> that returns adds the name to what the service lists.
\<close>

definition ensure_index_exists ::
  "config \<Rightarrow> string \<Rightarrow> nat \<Rightarrow> string \<Rightarrow> string list \<Rightarrow> string list \<times> event list" where
  "ensure_index_exists cfg index_name dimension metric indexes =
     (if index_name \<notin> set indexes
      then (indexes @ [index_name],
            [List_indexes,
             Create_index index_name dimension metric ''aws'' (PINECONE_ENVIRONMENT cfg),
             Print (Created_index index_name)])
      else (indexes, [List_indexes, Print (Index_already_exists index_name)]))"

text \<open>The defaults of the signature, \<^verbatim>\<open>dimension=1536, metric="cosine"\<close>.\<close>

definition default_dimension :: nat where
  "default_dimension = 1536"

definition default_metric :: string where
  "default_metric = ''cosine''"

text \<open>The loop \<^verbatim>\<open>for index in INDEX_NAMES: ensure_index_exists(index)\<close>.\<close>

fun ensure_all :: "config \<Rightarrow> string list \<Rightarrow> string list \<Rightarrow> string list \<times> event list" where
  "ensure_all cfg [] indexes = (indexes, [])"
| "ensure_all cfg (index # rest) indexes =
     (case ensure_index_exists cfg index default_dimension default_metric indexes of
        (indexes1, evs1) \<Rightarrow>
          (case ensure_all cfg rest indexes1 of
             (indexes2, evs2) \<Rightarrow> (indexes2, evs1 @ evs2)))"

text \<open>
  The module body of \<^verbatim>\<open>paddockpal1.py\<close> up to the provisioning loop: read the three
  variables, raise ValueError when one is missing or empty, then provision.
\<close>

definition module_init ::
  "environ \<Rightarrow> string list \<Rightarrow> (error + config \<times> string list) \<times> event list" where
  "module_init env indexes =
     (let cfg = load_config env in
      if falsy (OPENAI_API_KEY cfg) \<or> falsy (PINECONE_API_KEY cfg)
           \<or> falsy (PINECONE_ENVIRONMENT cfg)
      then (Inl ValueError, [])
      else (case ensure_all cfg INDEX_NAMES indexes of
              (indexes', evs) \<Rightarrow> (Inr (cfg, indexes'), evs)))"

text \<open>
  \<^verbatim>\<open>informationpage.init_s3_client\<close>: the three arguments handed to \<^verbatim>\<open>boto3.client\<close>,
  as \<^verbatim>\<open>os.getenv\<close> returns them. Nothing is checked.
\<close>

record s3_client_args =
  aws_access_key_id :: "string option"
  aws_secret_access_key :: "string option"
  region_name :: "string option"

definition init_s3_client :: "environ \<Rightarrow> s3_client_args" where
  "init_s3_client env =
     \<lparr>aws_access_key_id = env ''AWS_ACCESS_KEY_ID'',
      aws_secret_access_key = env ''AWS_SECRET_ACCESS_KEY'',
      region_name = env ''AWS_REGION''\<rparr>"

text \<open>
  The start of \<^verbatim>\<open>landing.py\<close>: importing \<^verbatim>\<open>informationpage\<close> defines functions only,
  importing \<^verbatim>\<open>paddockpal1\<close> runs \<open>module_init\<close>, and \<^verbatim>\<open>run()\<close>, which draws the user
  interface, follows the imports. An exception of an import ends the process before
  \<^verbatim>\<open>run()\<close>. (The third import, \<^verbatim>\<open>tracks_drivers\<close>, is not part of the sources at
  hand and is left out.)
\<close>

definition landing ::
  "environ \<Rightarrow> string list \<Rightarrow> (error + config \<times> string list) \<times> event list" where
  "landing env indexes =
     (case module_init env indexes of
        (Inl e, evs) \<Rightarrow> (Inl e, evs)
      | (Inr r, evs) \<Rightarrow> (Inr r, evs @ [Ui_run]))"

subsection \<open>Embedding and per-index query\<close>

definition get_pinecone_index ::
  "config \<Rightarrow> string \<Rightarrow> (error + string \<times> string) \<times> event list" where
  "get_pinecone_index cfg index_name =
     (if falsy (PINECONE_ENVIRONMENT cfg) then (Inl ValueError, [])
      else if falsy (INDEX_HOSTS index_name) then (Inl ValueError, [])
      else (case INDEX_HOSTS index_name of
              None \<Rightarrow> (Inl ValueError, [])
            | Some host \<Rightarrow>
                (Inr (index_name, host),
                 [Print (Connecting_to_host host), Index_handle index_name host])))"

definition generate_embeddings_openai ::
  "services \<Rightarrow> string \<Rightarrow> embedding option \<times> event list" where
  "generate_embeddings_openai sv txt =
     (case embedding_api sv txt ''text-embedding-ada-002'' of
        Inl e \<Rightarrow>
          (None, [Embedding_create txt ''text-embedding-ada-002'',
                  Print (Error_generating_embeddings e)])
      | Inr [] \<Rightarrow>
          (None, [Embedding_create txt ''text-embedding-ada-002'',
                  Print (Error_generating_embeddings IndexError)])
      | Inr (d # ds) \<Rightarrow> (Some d, [Embedding_create txt ''text-embedding-ada-002'']))"

definition get_text :: "metadata \<Rightarrow> string" where
  "get_text md = (case md of None \<Rightarrow> [] | Some t \<Rightarrow> t)"

text \<open>
  \<^verbatim>\<open>any(keyword.lower() in match["metadata"].get("text", "").lower() for keyword in keywords)\<close>:
  the generator evaluates \<^verbatim>\<open>match["metadata"]\<close> once per keyword it reaches, so a match
  without metadata raises KeyError unless the keyword list is empty. \<open>sublist\<close> is
  Python's \<^verbatim>\<open>in\<close> on strings; the first argument is the runtime's \<^verbatim>\<open>str.lower\<close>.
\<close>

fun any_keyword :: "(string \<Rightarrow> string) \<Rightarrow> string list \<Rightarrow> match \<Rightarrow> error + bool" where
  "any_keyword lower [] m = Inr False"
| "any_keyword lower (keyword # rest) m =
     (case metadata m of
        None \<Rightarrow> Inl KeyError
      | Some md \<Rightarrow>
          if sublist (lower keyword) (lower (get_text md)) then Inr True
          else any_keyword lower rest m)"

text \<open>The comprehension \<^verbatim>\<open>[match for match in matches if any(...)]\<close>.\<close>

fun keyword_filter ::
  "(string \<Rightarrow> string) \<Rightarrow> string list \<Rightarrow> match list \<Rightarrow> error + match list" where
  "keyword_filter lower keywords [] = Inr []"
| "keyword_filter lower keywords (m # ms) =
     (case any_keyword lower keywords m of
        Inl e \<Rightarrow> Inl e
      | Inr hit \<Rightarrow>
          (case keyword_filter lower keywords ms of
             Inl e \<Rightarrow> Inl e
           | Inr rest \<Rightarrow> Inr (if hit then m # rest else rest)))"

definition query_pinecone ::
  "config \<Rightarrow> services \<Rightarrow> string \<Rightarrow> embedding \<Rightarrow> string list option \<Rightarrow> nat
     \<Rightarrow> match list \<times> event list" where
  "query_pinecone cfg sv index_name query_embedding keywords_arg top_k =
     (let keywords = (case keywords_arg of None \<Rightarrow> [] | Some ks \<Rightarrow> ks) in
      case get_pinecone_index cfg index_name of
        (Inl e, evs) \<Rightarrow> ([], evs @ [Print (Error_querying_index index_name e)])
      | (Inr (name, host), evs) \<Rightarrow>
          (case query_api sv name host query_embedding top_k of
             Inl e \<Rightarrow>
               ([], evs @ [Index_query name query_embedding top_k True,
                           Print (Error_querying_index index_name e)])
           | Inr response \<Rightarrow>
               (let matches = (case response of None \<Rightarrow> [] | Some ms \<Rightarrow> ms) in
                case keyword_filter (str_lower sv) keywords matches of
                  Inl e \<Rightarrow>
                    ([], evs @ [Index_query name query_embedding top_k True,
                                Print (Error_querying_index index_name e)])
                | Inr keyword_matches \<Rightarrow>
                    (let combined_results =
                           keyword_matches @ filter (\<lambda>m. m \<notin> set keyword_matches) matches
                     in (take top_k combined_results,
                         evs @ [Index_query name query_embedding top_k True])))))"

subsection \<open>The retrieval orchestrator\<close>

definition get_score :: "match \<Rightarrow> real" where
  "get_score x = (case score x of None \<Rightarrow> 0 | Some s \<Rightarrow> s)"

text \<open>
  \<^verbatim>\<open>sorted(xs, key=..., reverse=True)\<close>: Python's sort is stable, also with
  \<^verbatim>\<open>reverse=True\<close>, so the result is the stable sort by descending key, which is the
  stable ascending sort \<open>sort_key\<close> on the negated key.
\<close>

definition sorted_reverse :: "('a \<Rightarrow> real) \<Rightarrow> 'a list \<Rightarrow> 'a list" where
  "sorted_reverse key xs = sort_key (\<lambda>x. - key x) xs"

text \<open>
  The loop over \<^verbatim>\<open>INDEX_NAMES\<close> with its accumulator \<^verbatim>\<open>all_results\<close>; each round
  calls \<^verbatim>\<open>query_pinecone(index_name, query_embedding, keywords=[], top_k=10)\<close>.
\<close>

fun search_indexes ::
  "config \<Rightarrow> services \<Rightarrow> embedding \<Rightarrow> string list \<Rightarrow> match list \<Rightarrow> match list \<times> event list" where
  "search_indexes cfg sv query_embedding [] all_results = (all_results, [])"
| "search_indexes cfg sv query_embedding (index_name # rest) all_results =
     (case query_pinecone cfg sv index_name query_embedding (Some []) 10 of
        (results, evs) \<Rightarrow>
          (case search_indexes cfg sv query_embedding rest (all_results @ results) of
             (final, evs') \<Rightarrow>
               (final,
                [Print (Searching_index index_name)] @ evs
                  @ [Print (Results_from index_name results)] @ evs')))"

definition fetch_relevant_documents ::
  "config \<Rightarrow> services \<Rightarrow> string \<Rightarrow> match list \<times> event list" where
  "fetch_relevant_documents cfg sv query =
     (case generate_embeddings_openai sv query of
        (None, evs) \<Rightarrow>
          ([], [Print (Processing_query query)] @ evs
                 @ [Print Failed_to_generate_query_embeddings])
      | (Some query_embedding, evs) \<Rightarrow>
          if query_embedding = []
          then ([], [Print (Processing_query query)] @ evs
                      @ [Print Failed_to_generate_query_embeddings])
          else (case search_indexes cfg sv query_embedding INDEX_NAMES [] of
                  (all_results, evs') \<Rightarrow>
                    (take 5 (sorted_reverse get_score all_results),
                     [Print (Processing_query query)] @ evs @ evs')))"

subsection \<open>Context assembly and answer synthesis\<close>

fun join :: "string \<Rightarrow> string list \<Rightarrow> string" where
  "join sep [] = []"
| "join sep [x] = x"
| "join sep (x # y # ys) = x @ sep @ join sep (y # ys)"

text \<open>The loop of \<^verbatim>\<open>get_combined_context\<close> with its two variables.\<close>

fun collect_contexts :: "match list \<Rightarrow> string set \<Rightarrow> string list \<Rightarrow> error + string list" where
  "collect_contexts [] seen_texts contexts = Inr contexts"
| "collect_contexts (m # ms) seen_texts contexts =
     (case metadata m of
        None \<Rightarrow> Inl KeyError
      | Some md \<Rightarrow>
          (let t = get_text md in
           if t \<noteq> [] \<and> t \<notin> seen_texts
           then collect_contexts ms (insert t seen_texts) (contexts @ [t])
           else collect_contexts ms seen_texts contexts))"

definition newline :: char where
  "newline = CHR 0x0A"

definition get_combined_context :: "match list \<Rightarrow> error + string" where
  "get_combined_context matches =
     (case collect_contexts matches {} [] of
        Inl e \<Rightarrow> Inl e
      | Inr contexts \<Rightarrow> Inr (join [newline, newline] (take 3 contexts)))"

definition no_information :: string where
  "no_information = ''No relevant information found in the database.''"

definition answer_error :: string where
  "answer_error = ''An error occurred while generating the answer.''"

definition prompt_messages :: "string \<Rightarrow> string \<Rightarrow> chat_message list" where
  "prompt_messages context query =
     [\<lparr>role = ''system'',
       content = ''You are a knowledgeable assistant with expertise in Formula 1 regulations.''\<rparr>,
      \<lparr>role = ''user'',
       content =
         ''Based on the following context, answer the question in detail. Provide a comprehensive response, include all relevant points, and elaborate wherever possible.''
         @ [newline, newline] @ ''Context:'' @ [newline] @ context
         @ [newline, newline] @ ''Question:'' @ [newline] @ query\<rparr>]"

definition generate_answer_with_openai ::
  "services \<Rightarrow> string \<Rightarrow> string \<Rightarrow> string \<times> event list" where
  "generate_answer_with_openai sv context query =
     (if context = [] then (no_information, [])
      else
        (let messages = prompt_messages context query;
             call = ChatCompletion_create ''gpt-4'' messages 5000 0.7
         in case chat_api sv ''gpt-4'' messages 5000 0.7 of
              Inl e \<Rightarrow> (answer_error, [call, Print (Error_generating_answer e)])
            | Inr [] \<Rightarrow> (answer_error, [call, Print (Error_generating_answer IndexError)])
            | Inr (c # cs) \<Rightarrow> (str_strip sv c, [call])))"

subsection \<open>Notions used to state the properties\<close>

text \<open>Reading a trace: the index queries, the create calls, the "already exists" lines.\<close>

fun is_query :: "event \<Rightarrow> bool" where
  "is_query (Index_query n v k b) = True"
| "is_query e = False"

fun is_create :: "event \<Rightarrow> bool" where
  "is_create (Create_index n d m c r) = True"
| "is_create e = False"

fun is_already_exists :: "event \<Rightarrow> bool" where
  "is_already_exists (Print (Index_already_exists n)) = True"
| "is_already_exists e = False"

text \<open>
  The specification's "match whose metadata text contains some keyword", written as a
  predicate (containment of one of the keywords, both sides lowered by the runtime's
  \<^verbatim>\<open>str.lower\<close>, the first argument), to be compared with the test \<open>any_keyword\<close> that
  the code runs. A match without metadata has no text and contains no keyword.
\<close>

definition contains_keyword :: "(string \<Rightarrow> string) \<Rightarrow> string list \<Rightarrow> match \<Rightarrow> bool" where
  "contains_keyword lower kws m =
     (case metadata m of
        None \<Rightarrow> False
      | Some md \<Rightarrow> list_ex (\<lambda>kw. sublist (lower kw) (lower (get_text md))) kws)"

text \<open>
  What an index handed back for a query: the matches of the response, and nothing when the
  index has no host, the call raised or the response had no \<^verbatim>\<open>"matches"\<close> key.
\<close>

definition returned_matches :: "services \<Rightarrow> string \<Rightarrow> embedding \<Rightarrow> nat \<Rightarrow> match list" where
  "returned_matches sv index_name e k =
     (case INDEX_HOSTS index_name of
        None \<Rightarrow> []
      | Some host \<Rightarrow>
          (case query_api sv index_name host e k of
             Inl err \<Rightarrow> []
           | Inr None \<Rightarrow> []
           | Inr (Some ms) \<Rightarrow> ms))"

text \<open>
  The result of one round of the orchestrator's loop: what
  \<^verbatim>\<open>query_pinecone(index_name, query_embedding, keywords=[], top_k=10)\<close> returns.
\<close>

definition per_index :: "config \<Rightarrow> services \<Rightarrow> embedding \<Rightarrow> string \<Rightarrow> match list" where
  "per_index cfg sv e n = fst (query_pinecone cfg sv n e (Some []) 10)"

subsection \<open>Example inputs\<close>

definition example_config :: config where
  "example_config =
     \<lparr>OPENAI_API_KEY = Some ''sk-test'',
      PINECONE_API_KEY = Some ''pc-test'',
      PINECONE_ENVIRONMENT = Some ''us-east-1''\<rparr>"

definition example_environ :: environ where
  "example_environ =
     [''OPENAI_API_KEY'' \<mapsto> ''sk-test'',
      ''PINECONE_API_KEY'' \<mapsto> ''pc-test'',
      ''PINECONE_ENV'' \<mapsto> ''us-east-1'']"

definition mk_match :: "string \<Rightarrow> real \<Rightarrow> string \<Rightarrow> match" where
  "mk_match i s t = \<lparr>match_id = i, score = Some s, metadata = Some (Some t)\<rparr>"

definition sporting_matches :: "match list" where
  "sporting_matches =
     [mk_match ''s1'' 9 ''Minimum weight'',
      mk_match ''s2'' 8 ''Safety car'',
      mk_match ''s3'' 7 ''Car WEIGHT check'',
      mk_match ''s4'' 6 ''Safety car'',
      mk_match ''s5'' 5 ''Parc ferme'',
      mk_match ''s6'' 4 ''Pit lane'']"

definition technical_matches :: "match list" where
  "technical_matches =
     [mk_match ''t1'' 8 ''Minimum weight'',
      mk_match ''t2'' 3 ''Fuel flow'']"

definition unlabelled_matches :: "match list" where
  "unlabelled_matches =
     [mk_match ''u1'' 9 ''Minimum weight'',
      \<lparr>match_id = ''u2'', score = Some 8, metadata = None\<rparr>]"

text \<open>
  \<^verbatim>\<open>str.lower\<close> and \<^verbatim>\<open>str.strip\<close> as they act on ASCII text, for the examples:
  the letters A to Z are lowered, the ASCII white space is stripped.
\<close>

definition ascii_lower_char :: "char \<Rightarrow> char" where
  "ascii_lower_char c =
     (case map_of (zip ''ABCDEFGHIJKLMNOPQRSTUVWXYZ'' ''abcdefghijklmnopqrstuvwxyz'') c of
        None \<Rightarrow> c
      | Some l \<Rightarrow> l)"

definition ascii_lower :: "string \<Rightarrow> string" where
  "ascii_lower s = map ascii_lower_char s"

definition ascii_space :: "char \<Rightarrow> bool" where
  "ascii_space c =
     (let n = (of_char c :: nat) in n = 32 \<or> (9 \<le> n \<and> n \<le> 13) \<or> (28 \<le> n \<and> n \<le> 31))"

definition ascii_strip :: "string \<Rightarrow> string" where
  "ascii_strip s = rev (dropWhile ascii_space (rev (dropWhile ascii_space s)))"

text \<open>
  An index service: six matches from the sporting index, two from the technical index, an
  exception from the financial index.
\<close>

definition example_query_api ::
  "string \<Rightarrow> string \<Rightarrow> embedding \<Rightarrow> nat \<Rightarrow> error + match list option" where
  "example_query_api index_name host v k =
     (if index_name = ''sporting-regulations-embeddings'' then Inr (Some sporting_matches)
      else if index_name = ''technical-regulations-embeddings'' then Inr (Some technical_matches)
      else Inl (ApiError ''unavailable''))"

definition example_services :: "(error + embedding list) \<Rightarrow> services" where
  "example_services emb =
     \<lparr>embedding_api = (\<lambda>input model. emb),
      query_api = example_query_api,
      chat_api = (\<lambda>model messages max_tokens temperature. Inr [''Answer.'']),
      str_lower = ascii_lower,
      str_strip = ascii_strip\<rparr>"

text \<open>An index service whose every reply holds a match without metadata.\<close>

definition unlabelled_services :: services where
  "unlabelled_services =
     \<lparr>embedding_api = (\<lambda>input model. Inr [[1, 0]]),
      query_api = (\<lambda>index_name host v k. Inr (Some unlabelled_matches)),
      chat_api = (\<lambda>model messages max_tokens temperature. Inr [''Answer.'']),
      str_lower = ascii_lower,
      str_strip = ascii_strip\<rparr>"

section \<open>Properties\<close>

subsection \<open>Auxiliary facts\<close>

lemma INDEX_HOSTS_nonempty: "INDEX_HOSTS n = Some host \<Longrightarrow> host \<noteq> []"
  by (auto simp: INDEX_HOSTS_def split: if_splits)

lemma get_pinecone_index_ok:
  assumes "\<not> falsy (PINECONE_ENVIRONMENT cfg)" and "INDEX_HOSTS index_name = Some host"
  shows "get_pinecone_index cfg index_name
         = (Inr (index_name, host),
            [Print (Connecting_to_host host), Index_handle index_name host])"
  using assms INDEX_HOSTS_nonempty[OF assms(2)]
  by (simp add: get_pinecone_index_def falsy_def)

lemma keyword_filter_Nil: "keyword_filter lower [] ms = Inr []"
  by (induction ms) simp_all

subsection \<open>Embedding failure\<close>

text \<open>
  Claim C3. For every query, when the embedding call fails, \<open>fetch_relevant_documents\<close>
  returns the empty result set: the exception of the embedding client is caught, printed and
  turned into \<open>None\<close>, after which the function prints the failure and returns \<open>[]\<close>. No
  exception leaves the function, and no index is contacted.
\<close>

theorem fetch_embedding_failure_empty:
  assumes "embedding_api sv query ''text-embedding-ada-002'' = Inl e"
  shows "fetch_relevant_documents cfg sv query =
     ([], [Print (Processing_query query),
           Embedding_create query ''text-embedding-ada-002'',
           Print (Error_generating_embeddings e),
           Print Failed_to_generate_query_embeddings])"
  using assms by (simp add: fetch_relevant_documents_def generate_embeddings_openai_def)

theorem fetch_embedding_failure_empty_witness:
  "embedding_api (example_services (Inl (ApiError ''timeout''))) ''What is DRS?''
       ''text-embedding-ada-002'' = Inl (ApiError ''timeout'')
   \<and> fetch_relevant_documents example_config (example_services (Inl (ApiError ''timeout'')))
        ''What is DRS?'' =
     ([], [Print (Processing_query ''What is DRS?''),
           Embedding_create ''What is DRS?'' ''text-embedding-ada-002'',
           Print (Error_generating_embeddings (ApiError ''timeout'')),
           Print Failed_to_generate_query_embeddings])"
proof -
  have h: "embedding_api (example_services (Inl (ApiError ''timeout''))) ''What is DRS?''
       ''text-embedding-ada-002'' = Inl (ApiError ''timeout'')"
    by (simp add: example_services_def)
  show ?thesis
    by (intro conjI h fetch_embedding_failure_empty[OF h])
qed

text \<open>
  Claim C10. \<open>fetch_relevant_documents\<close> treats every falsy embedding result as a failure:
  when \<open>generate_embeddings_openai\<close> yields \<open>None\<close> or an empty vector, the result is the
  empty list and the trace holds no index query.
\<close>

theorem fetch_falsy_embedding_no_query:
  assumes "fst (generate_embeddings_openai sv query) = None
           \<or> fst (generate_embeddings_openai sv query) = Some []"
  shows "fst (fetch_relevant_documents cfg sv query) = []
         \<and> filter is_query (snd (fetch_relevant_documents cfg sv query)) = []"
proof -
  obtain r evs where g: "generate_embeddings_openai sv query = (r, evs)"
    by (cases "generate_embeddings_openai sv query")
  have noq: "filter is_query evs = []"
    using g by (auto simp: generate_embeddings_openai_def split: sum.splits list.splits)
  from assms g have "r = None \<or> r = Some []" by simp
  then show ?thesis
    using g noq by (auto simp: fetch_relevant_documents_def)
qed

theorem fetch_falsy_embedding_no_query_witness:
  "fst (generate_embeddings_openai (example_services (Inr [[]])) ''What is DRS?'') = Some []
   \<and> fst (fetch_relevant_documents example_config (example_services (Inr [[]])) ''What is DRS?'')
       = []
   \<and> filter is_query
        (snd (fetch_relevant_documents example_config (example_services (Inr [[]]))
               ''What is DRS?'')) = []"
proof -
  have h: "fst (generate_embeddings_openai (example_services (Inr [[]])) ''What is DRS?'')
           = Some []"
    by (simp add: generate_embeddings_openai_def example_services_def)
  show ?thesis
    using h fetch_falsy_embedding_no_query[OF disjI2, OF h, of example_config] by simp
qed

subsection \<open>The per-index query\<close>

text \<open>
  Claim C9. Called with an empty keyword list, as \<open>fetch_relevant_documents\<close> does,
  \<open>query_pinecone\<close> leaves the keyword group empty and returns the matches of the index
  in their order, cut to \<open>top_k\<close>: the keyword-priority merge is the identity.
\<close>

theorem query_pinecone_no_keywords_identity:
  assumes "\<not> falsy (PINECONE_ENVIRONMENT cfg)"
    and "INDEX_HOSTS index_name = Some host"
    and "query_api sv index_name host query_embedding top_k = Inr (Some matches)"
  shows "keyword_filter (str_lower sv) [] matches = Inr []
         \<and> query_pinecone cfg sv index_name query_embedding (Some []) top_k =
             (take top_k matches,
              [Print (Connecting_to_host host), Index_handle index_name host,
               Index_query index_name query_embedding top_k True])"
  using assms(3)
  by (simp add: query_pinecone_def get_pinecone_index_ok[OF assms(1,2)] keyword_filter_Nil)

theorem query_pinecone_no_keywords_identity_witness:
  "\<not> falsy (PINECONE_ENVIRONMENT example_config)
   \<and> INDEX_HOSTS ''technical-regulations-embeddings''
       = Some ''technical-regulations-embeddings-jl357j9.svc.aped-4627-b74a.pinecone.io''
   \<and> query_api (example_services (Inr [[1, 0]])) ''technical-regulations-embeddings''
        ''technical-regulations-embeddings-jl357j9.svc.aped-4627-b74a.pinecone.io'' [1, 0] 1
       = Inr (Some technical_matches)
   \<and> fst (query_pinecone example_config (example_services (Inr [[1, 0]]))
            ''technical-regulations-embeddings'' [1, 0] (Some []) 1)
       = [mk_match ''t1'' 8 ''Minimum weight'']"
proof -
  have h1: "\<not> falsy (PINECONE_ENVIRONMENT example_config)"
    by (simp add: falsy_def example_config_def)
  have h2: "INDEX_HOSTS ''technical-regulations-embeddings''
       = Some ''technical-regulations-embeddings-jl357j9.svc.aped-4627-b74a.pinecone.io''"
    by (simp add: INDEX_HOSTS_def)
  have h3: "query_api (example_services (Inr [[1, 0]])) ''technical-regulations-embeddings''
        ''technical-regulations-embeddings-jl357j9.svc.aped-4627-b74a.pinecone.io'' [1, 0] 1
       = Inr (Some technical_matches)"
    by (simp add: example_services_def example_query_api_def)
  show ?thesis
    using h1 h2 h3 query_pinecone_no_keywords_identity[OF h1 h2 h3]
    by (simp add: technical_matches_def)
qed


text \<open>The test the code runs agrees with the predicate wherever the metadata is present.\<close>

lemma any_keyword_contains:
  "metadata m = Some md \<Longrightarrow> any_keyword lower kws m = Inr (contains_keyword lower kws m)"
  by (induction kws) (simp_all add: contains_keyword_def)

lemma any_keyword_no_metadata:
  "kws \<noteq> [] \<Longrightarrow> metadata m = None \<Longrightarrow> any_keyword lower kws m = Inl KeyError"
  by (cases kws) simp_all

lemma keyword_filter_contains:
  "list_all (\<lambda>m. metadata m \<noteq> None) ms \<Longrightarrow>
     keyword_filter lower kws ms = Inr (filter (contains_keyword lower kws) ms)"
proof (induction ms)
  case Nil
  show ?case by simp
next
  case (Cons m ms)
  then obtain md where "metadata m = Some md" by auto
  then have "any_keyword lower kws m = Inr (contains_keyword lower kws m)"
    by (rule any_keyword_contains)
  moreover have "keyword_filter lower kws ms = Inr (filter (contains_keyword lower kws) ms)"
    using Cons by simp
  ultimately show ?case by simp
qed

text \<open>With a keyword to test, one match without metadata makes the comprehension raise.\<close>

lemma keyword_filter_no_metadata:
  assumes "kws \<noteq> []"
  shows "\<not> list_all (\<lambda>m. metadata m \<noteq> None) ms \<Longrightarrow> keyword_filter lower kws ms = Inl KeyError"
proof (induction ms)
  case Nil
  then show ?case by simp
next
  case (Cons m ms)
  show ?case
  proof (cases "metadata m")
    case None
    then have "any_keyword lower kws m = Inl KeyError"
      using assms by (simp add: any_keyword_no_metadata)
    then show ?thesis by simp
  next
    case (Some md)
    then have a: "any_keyword lower kws m = Inr (contains_keyword lower kws m)"
      by (rule any_keyword_contains)
    from Some Cons.prems have "\<not> list_all (\<lambda>m. metadata m \<noteq> None) ms" by simp
    then have "keyword_filter lower kws ms = Inl KeyError" by (rule Cons.IH)
    with a show ?thesis by simp
  qed
qed

text \<open>
  \<^verbatim>\<open>m not in keyword_matches\<close> compares by value; on the elements of \<open>ms\<close> it is the
  negation of the keyword test.
\<close>

lemma filter_not_in_filter:
  "filter (\<lambda>m. m \<in> set ms \<longrightarrow> \<not> P m) ms = filter (\<lambda>m. \<not> P m) ms"
  by (rule filter_cong) simp_all

lemma hits_before_rest:
  assumes out: "out = take k (filter P ms @ filter (\<lambda>m. \<not> P m) ms)"
    and i: "i < length out" and j: "j < length out"
    and Pi: "P (out ! i)" and Pj: "\<not> P (out ! j)"
  shows "i < j"
proof -
  define A where "A = take k (filter P ms)"
  define B where "B = take (k - length (filter P ms)) (filter (\<lambda>m. \<not> P m) ms)"
  have AB: "out = A @ B"
    by (simp add: out A_def B_def)
  have A: "P m" if "m \<in> set A" for m
  proof -
    from that have "m \<in> set (filter P ms)"
      unfolding A_def by (rule in_set_takeD)
    then show ?thesis by simp
  qed
  have B: "\<not> P m" if "m \<in> set B" for m
  proof -
    from that have "m \<in> set (filter (\<lambda>m. \<not> P m) ms)"
      unfolding B_def by (rule in_set_takeD)
    then show ?thesis by simp
  qed
  have "i < length A"
  proof (rule ccontr)
    assume n: "\<not> i < length A"
    then have "i - length A < length B"
      using i by (simp add: AB)
    then have "B ! (i - length A) \<in> set B"
      by (rule nth_mem)
    moreover have "out ! i = B ! (i - length A)"
      using n by (simp add: AB nth_append)
    ultimately show False using B Pi by simp
  qed
  moreover have "length A \<le> j"
  proof (rule ccontr)
    assume n: "\<not> length A \<le> j"
    then have "j < length A" by simp
    then have "A ! j \<in> set A"
      by (rule nth_mem)
    moreover have "out ! j = A ! j"
      using n by (simp add: AB nth_append)
    ultimately show False using A Pj by simp
  qed
  ultimately show ?thesis by simp
qed

lemma groups_keep_order:
  assumes out: "out = take k (filter P ms @ filter (\<lambda>m. \<not> P m) ms)"
  shows "prefix (filter P out) (filter P ms)"
    and "prefix (filter (\<lambda>m. \<not> P m) out) (filter (\<lambda>m. \<not> P m) ms)"
proof -
  define A where "A = take k (filter P ms)"
  define B where "B = take (k - length (filter P ms)) (filter (\<lambda>m. \<not> P m) ms)"
  have AB: "out = A @ B"
    by (simp add: out A_def B_def)
  have A: "\<forall>m\<in>set A. P m"
  proof
    fix m
    assume "m \<in> set A"
    then have "m \<in> set (filter P ms)"
      unfolding A_def by (rule in_set_takeD)
    then show "P m" by simp
  qed
  have B: "\<forall>m\<in>set B. \<not> P m"
  proof
    fix m
    assume "m \<in> set B"
    then have "m \<in> set (filter (\<lambda>m. \<not> P m) ms)"
      unfolding B_def by (rule in_set_takeD)
    then show "\<not> P m" by simp
  qed
  have "filter P A = A" using A by (simp add: filter_id_conv)
  moreover have "filter P B = []" using B by (simp add: filter_empty_conv)
  ultimately have "filter P out = A" by (simp add: AB)
  then show "prefix (filter P out) (filter P ms)"
    by (simp add: A_def take_is_prefix)
  have "filter (\<lambda>m. \<not> P m) A = []" using A by (simp add: filter_empty_conv)
  moreover have "filter (\<lambda>m. \<not> P m) B = B" using B by (simp add: filter_id_conv)
  ultimately have "filter (\<lambda>m. \<not> P m) out = B" by (simp add: AB)
  then show "prefix (filter (\<lambda>m. \<not> P m) out) (filter (\<lambda>m. \<not> P m) ms)"
    by (simp add: B_def take_is_prefix)
qed

text \<open>
  The result of \<open>query_pinecone\<close> for a non-empty keyword list, in every case: the merge
  cut to \<open>top_k\<close> when the index is reached and every match carries metadata, and the
  empty list (the \<^verbatim>\<open>except\<close> branch, or an index that handed back nothing) otherwise.
\<close>

lemma query_pinecone_keywords_result:
  assumes "kws \<noteq> []"
  shows "fst (query_pinecone cfg sv n e (Some kws) k)
         = (if \<not> falsy (PINECONE_ENVIRONMENT cfg)
                 \<and> list_all (\<lambda>m. metadata m \<noteq> None) (returned_matches sv n e k)
            then take k (filter (contains_keyword (str_lower sv) kws) (returned_matches sv n e k)
                         @ filter (\<lambda>m. \<not> contains_keyword (str_lower sv) kws m)
                             (returned_matches sv n e k))
            else [])"
proof (cases "falsy (PINECONE_ENVIRONMENT cfg)")
  case True
  then show ?thesis
    by (simp add: query_pinecone_def get_pinecone_index_def)
next
  case env: False
  show ?thesis
  proof (cases "INDEX_HOSTS n")
    case None
    then show ?thesis
      using env by (simp add: query_pinecone_def get_pinecone_index_def returned_matches_def
          falsy_def)
  next
    case (Some host)
    note gi = get_pinecone_index_ok[OF env Some]
    show ?thesis
    proof (cases "query_api sv n host e k")
      case (Inl err)
      then show ?thesis
        using env Some by (simp add: query_pinecone_def gi returned_matches_def)
    next
      case (Inr response)
      show ?thesis
      proof (cases response)
        case None
        then show ?thesis
          using env Some Inr by (simp add: query_pinecone_def gi returned_matches_def)
      next
        case (Some ms)
        have rm: "returned_matches sv n e k = ms"
          using \<open>INDEX_HOSTS n = Some host\<close> Inr Some by (simp add: returned_matches_def)
        show ?thesis
        proof (cases "list_all (\<lambda>m. metadata m \<noteq> None) ms")
          case True
          then have "keyword_filter (str_lower sv) kws ms
                     = Inr (filter (contains_keyword (str_lower sv) kws) ms)"
            by (rule keyword_filter_contains)
          then show ?thesis
            using env Inr Some True
            by (simp add: query_pinecone_def gi rm filter_not_in_filter)
        next
          case False
          then have "keyword_filter (str_lower sv) kws ms = Inl KeyError"
            by (rule keyword_filter_no_metadata[OF assms])
          then show ?thesis
            using env Inr Some False by (simp add: query_pinecone_def gi rm)
        qed
      qed
    qed
  qed
qed

text \<open>
  Claim C4. For every non-empty keyword list and every list of matches an index hands
  back, every match whose metadata text contains some keyword stands, in the merged output
  of \<open>query_pinecone\<close>, before every match that contains none, and the matches of each of
  the two groups are in the output in their original relative order. The output is the
  matches with a keyword, in order, followed by the matches without one, in order, cut to
  \<open>top_k\<close>; it is empty when a match without metadata makes the keyword test raise
  KeyError (caught by the function) or when the index is not reached.
\<close>

theorem query_pinecone_keyword_priority:
  assumes "kws \<noteq> []"
  shows "(let matches = returned_matches sv index_name query_embedding top_k;
              hit = contains_keyword (str_lower sv) kws;
              merged = fst (query_pinecone cfg sv index_name query_embedding (Some kws) top_k)
          in merged = (if \<not> falsy (PINECONE_ENVIRONMENT cfg)
                            \<and> list_all (\<lambda>m. metadata m \<noteq> None) matches
                       then take top_k (filter hit matches @ filter (\<lambda>m. \<not> hit m) matches)
                       else [])
             \<and> (\<forall>i j. i < length merged \<and> j < length merged
                    \<and> hit (merged ! i) \<and> \<not> hit (merged ! j) \<longrightarrow> i < j)
             \<and> prefix (filter hit merged) (filter hit matches)
             \<and> prefix (filter (\<lambda>m. \<not> hit m) merged) (filter (\<lambda>m. \<not> hit m) matches))"
proof -
  define matches where "matches = returned_matches sv index_name query_embedding top_k"
  define hit where "hit = contains_keyword (str_lower sv) kws"
  define merged where
    "merged = fst (query_pinecone cfg sv index_name query_embedding (Some kws) top_k)"
  define reached where
    "reached \<longleftrightarrow> \<not> falsy (PINECONE_ENVIRONMENT cfg)
                   \<and> list_all (\<lambda>m. metadata m \<noteq> None) matches"
  have eq: "merged = (if reached
                      then take top_k (filter hit matches @ filter (\<lambda>m. \<not> hit m) matches)
                      else [])"
    unfolding merged_def matches_def hit_def reached_def
    using assms by (rule query_pinecone_keywords_result)
  have pos: "\<forall>i j. i < length merged \<and> j < length merged
                    \<and> hit (merged ! i) \<and> \<not> hit (merged ! j) \<longrightarrow> i < j"
  proof (cases reached)
    case True
    then have out: "merged = take top_k (filter hit matches @ filter (\<lambda>m. \<not> hit m) matches)"
      using eq by simp
    show ?thesis
      using hits_before_rest[OF out] by blast
  next
    case False
    then have "merged = []" using eq by simp
    then show ?thesis by simp
  qed
  have ord: "prefix (filter hit merged) (filter hit matches)
             \<and> prefix (filter (\<lambda>m. \<not> hit m) merged) (filter (\<lambda>m. \<not> hit m) matches)"
  proof (cases reached)
    case True
    then have out: "merged = take top_k (filter hit matches @ filter (\<lambda>m. \<not> hit m) matches)"
      using eq by simp
    show ?thesis
      using groups_keep_order[OF out] by simp
  next
    case False
    then have "merged = []" using eq by simp
    then show ?thesis by simp
  qed
  show ?thesis
    unfolding Let_def matches_def[symmetric] hit_def[symmetric] merged_def[symmetric]
    using eq pos ord unfolding reached_def by blast
qed

lemma contains_weight_sporting:
  "filter (contains_keyword ascii_lower [''Weight'']) sporting_matches
     = [mk_match ''s1'' 9 ''Minimum weight'', mk_match ''s3'' 7 ''Car WEIGHT check'']"
  "filter (\<lambda>m. \<not> contains_keyword ascii_lower [''Weight''] m) sporting_matches
     = [mk_match ''s2'' 8 ''Safety car'', mk_match ''s4'' 6 ''Safety car'',
        mk_match ''s5'' 5 ''Parc ferme'', mk_match ''s6'' 4 ''Pit lane'']"
  by (simp_all add: sporting_matches_def mk_match_def contains_keyword_def get_text_def
      ascii_lower_def ascii_lower_char_def sublist_code(3))

lemma example_returned_matches:
  "returned_matches (example_services emb) ''sporting-regulations-embeddings'' e k
     = sporting_matches"
  "returned_matches unlabelled_services ''sporting-regulations-embeddings'' e k
     = unlabelled_matches"
  by (simp_all add: returned_matches_def INDEX_HOSTS_def example_services_def
      example_query_api_def unlabelled_services_def)

theorem query_pinecone_keyword_priority_witness:
  "[''Weight''] \<noteq> ([] :: string list)
   \<and> fst (query_pinecone example_config (example_services (Inr [[1, 0]]))
            ''sporting-regulations-embeddings'' [1, 0] (Some [''Weight'']) 3)
       = [mk_match ''s1'' 9 ''Minimum weight'', mk_match ''s3'' 7 ''Car WEIGHT check'',
          mk_match ''s2'' 8 ''Safety car'']
   \<and> fst (query_pinecone example_config unlabelled_services
            ''sporting-regulations-embeddings'' [1, 0] (Some [''Weight'']) 3)
       = []"
proof -
  have h: "[''Weight''] \<noteq> ([] :: string list)" by simp
  have env: "\<not> falsy (PINECONE_ENVIRONMENT example_config)"
    by (simp add: falsy_def example_config_def)
  have all: "list_all (\<lambda>m. metadata m \<noteq> None) sporting_matches"
    by (simp add: sporting_matches_def mk_match_def)
  have lower: "str_lower (example_services (Inr [[1, 0]])) = ascii_lower"
    by (simp add: example_services_def)
  have "fst (query_pinecone example_config (example_services (Inr [[1, 0]]))
            ''sporting-regulations-embeddings'' [1, 0] (Some [''Weight'']) 3)
       = take 3 (filter (contains_keyword ascii_lower [''Weight'']) sporting_matches
                  @ filter (\<lambda>m. \<not> contains_keyword ascii_lower [''Weight''] m)
                      sporting_matches)"
    using query_pinecone_keyword_priority[OF h, of "example_services (Inr [[1, 0]])"
        "''sporting-regulations-embeddings''" "[1, 0]" 3 example_config,
        unfolded Let_def, THEN conjunct1] env all
    by (simp add: example_returned_matches lower)
  then have v1: "fst (query_pinecone example_config (example_services (Inr [[1, 0]]))
            ''sporting-regulations-embeddings'' [1, 0] (Some [''Weight'']) 3)
       = [mk_match ''s1'' 9 ''Minimum weight'', mk_match ''s3'' 7 ''Car WEIGHT check'',
          mk_match ''s2'' 8 ''Safety car'']"
    by (simp add: contains_weight_sporting)
  have none: "\<not> list_all (\<lambda>m. metadata m \<noteq> None) unlabelled_matches"
    by (simp add: unlabelled_matches_def mk_match_def)
  have v2: "fst (query_pinecone example_config unlabelled_services
            ''sporting-regulations-embeddings'' [1, 0] (Some [''Weight'']) 3) = []"
    using query_pinecone_keyword_priority[OF h, of unlabelled_services
        "''sporting-regulations-embeddings''" "[1, 0]" 3 example_config,
        unfolded Let_def, THEN conjunct1] none
    by (simp add: example_returned_matches)
  from h v1 v2 show ?thesis by blast
qed

subsection \<open>The orchestrator's result\<close>

lemma search_indexes_fst:
  "fst (search_indexes cfg sv e ns acc) = acc @ concat (map (per_index cfg sv e) ns)"
proof (induction ns arbitrary: acc)
  case Nil
  show ?case by simp
next
  case (Cons n ns)
  obtain results evs where q: "query_pinecone cfg sv n e (Some []) 10 = (results, evs)"
    by (cases "query_pinecone cfg sv n e (Some []) 10")
  obtain final evs' where s: "search_indexes cfg sv e ns (acc @ results) = (final, evs')"
    by (cases "search_indexes cfg sv e ns (acc @ results)")
  have "final = (acc @ results) @ concat (map (per_index cfg sv e) ns)"
    using Cons.IH[of "acc @ results"] s by simp
  moreover have "per_index cfg sv e n = results"
    using q by (simp add: per_index_def)
  ultimately show ?case using q s by simp
qed

lemma fetch_result:
  assumes "fst (generate_embeddings_openai sv q) = Some e" and "e \<noteq> []"
  shows "fst (fetch_relevant_documents cfg sv q)
         = take 5 (sorted_reverse get_score (concat (map (per_index cfg sv e) INDEX_NAMES)))"
proof -
  obtain evs where g: "generate_embeddings_openai sv q = (Some e, evs)"
    using assms(1) by (cases "generate_embeddings_openai sv q") auto
  have "fst (search_indexes cfg sv e INDEX_NAMES [])
        = concat (map (per_index cfg sv e) INDEX_NAMES)"
    by (simp add: search_indexes_fst)
  then show ?thesis
    using g assms(2) by (auto simp: fetch_relevant_documents_def split: prod.splits)
qed

lemma sorted_reverse_descending:
  "sorted_wrt (\<lambda>a b. key b \<le> key a) (sorted_reverse key xs)"
proof -
  have "sorted (map (\<lambda>x. - key x) (sort_key (\<lambda>x. - key x) xs))"
    by (rule sorted_sort_key)
  then show ?thesis
    by (simp add: sorted_reverse_def sorted_wrt_map)
qed

lemma sorted_reverse_stable:
  "filter (\<lambda>y. key y = s) (sorted_reverse key xs) = filter (\<lambda>y. key y = s) xs"
proof -
  have "filter (\<lambda>y. - key y = - s) (sort_key (\<lambda>x. - key x) xs)
        = filter (\<lambda>y. - key y = - s) xs"
    by (rule sort_key_stable)
  then show ?thesis by (simp add: sorted_reverse_def)
qed

lemma mset_sorted_reverse: "mset (sorted_reverse key xs) = mset xs"
  by (simp add: sorted_reverse_def)

lemma prefix_filter_take: "prefix (filter P (take n xs)) (filter P xs)"
proof -
  have "filter P xs = filter P (take n xs) @ filter P (drop n xs)"
    by (metis append_take_drop_id filter_append)
  then show ?thesis by (simp add: prefix_def)
qed

lemma take_drop_descending:
  assumes "sorted_wrt (\<lambda>a b. key b \<le> key a) ys"
  shows "\<forall>x\<in>set (take n ys). \<forall>y\<in>set (drop n ys). key y \<le> key x"
proof -
  from assms have "sorted_wrt (\<lambda>a b. key b \<le> key a) (take n ys @ drop n ys)" by simp
  then show ?thesis unfolding sorted_wrt_append by blast
qed

text \<open>
  Claim C2. Whenever the indexes are searched, \<open>fetch_relevant_documents\<close> returns at most
  5 matches (5, or all of them when fewer came back), sorted by descending score; they are
  highest-scored ones of everything the three indexes returned (no match left out scores
  higher than a returned one); and among matches of one score the returned ones are the
  first of that score in insertion order (index order, then per-index order), in that order.
\<close>

theorem fetch_returns_top5_stable:
  assumes "fst (generate_embeddings_openai sv query) = Some e" and "e \<noteq> []"
  shows "(let all_results =
                fst (query_pinecone cfg sv ''sporting-regulations-embeddings'' e (Some []) 10)
                @ fst (query_pinecone cfg sv ''technical-regulations-embeddings'' e (Some []) 10)
                @ fst (query_pinecone cfg sv ''financial-regulations-embeddings'' e (Some []) 10);
              returned = fst (fetch_relevant_documents cfg sv query)
          in length returned = min 5 (length all_results)
             \<and> sorted_wrt (\<lambda>a b. get_score b \<le> get_score a) returned
             \<and> (\<exists>others. mset all_results = mset returned + mset others
                  \<and> (\<forall>x\<in>set returned. \<forall>y\<in>set others. get_score y \<le> get_score x))
             \<and> (\<forall>s. prefix (filter (\<lambda>m. get_score m = s) returned)
                           (filter (\<lambda>m. get_score m = s) all_results)))"
proof -
  define all_results where "all_results = concat (map (per_index cfg sv e) INDEX_NAMES)"
  define ys where "ys = sorted_reverse get_score all_results"
  have ret: "fst (fetch_relevant_documents cfg sv query) = take 5 ys"
    using fetch_result[OF assms] by (simp add: ys_def all_results_def)
  have all_eq: "all_results =
      fst (query_pinecone cfg sv ''sporting-regulations-embeddings'' e (Some []) 10)
      @ fst (query_pinecone cfg sv ''technical-regulations-embeddings'' e (Some []) 10)
      @ fst (query_pinecone cfg sv ''financial-regulations-embeddings'' e (Some []) 10)"
    by (simp add: all_results_def INDEX_NAMES_def per_index_def)
  have desc: "sorted_wrt (\<lambda>a b. get_score b \<le> get_score a) ys"
    unfolding ys_def by (rule sorted_reverse_descending)
  have len: "length (take 5 ys) = min 5 (length all_results)"
    by (simp add: ys_def sorted_reverse_def)
  have srt: "sorted_wrt (\<lambda>a b. get_score b \<le> get_score a) (take 5 ys)"
    using desc by (metis append_take_drop_id sorted_wrt_append)
  have "mset all_results = mset (take 5 ys) + mset (drop 5 ys)"
    by (metis append_take_drop_id mset_append mset_sorted_reverse ys_def)
  moreover have "\<forall>x\<in>set (take 5 ys). \<forall>y\<in>set (drop 5 ys). get_score y \<le> get_score x"
    using take_drop_descending[OF desc] .
  ultimately have top: "\<exists>others. mset all_results = mset (take 5 ys) + mset others
      \<and> (\<forall>x\<in>set (take 5 ys). \<forall>y\<in>set others. get_score y \<le> get_score x)"
    by blast
  have stab: "\<forall>s. prefix (filter (\<lambda>m. get_score m = s) (take 5 ys))
                          (filter (\<lambda>m. get_score m = s) all_results)"
  proof
    fix s
    have "prefix (filter (\<lambda>m. get_score m = s) (take 5 ys)) (filter (\<lambda>m. get_score m = s) ys)"
      by (rule prefix_filter_take)
    then show "prefix (filter (\<lambda>m. get_score m = s) (take 5 ys))
                      (filter (\<lambda>m. get_score m = s) all_results)"
      by (simp add: ys_def sorted_reverse_stable)
  qed
  show ?thesis
    unfolding Let_def ret all_eq[symmetric]
    using len srt top stab by blast
qed

lemma example_embedding:
  "generate_embeddings_openai (example_services (Inr [[1, 0]])) q
     = (Some [1, 0], [Embedding_create q ''text-embedding-ada-002''])"
  by (simp add: generate_embeddings_openai_def example_services_def)

lemma example_get_pinecone_index:
  "get_pinecone_index example_config ''sporting-regulations-embeddings''
     = (Inr (''sporting-regulations-embeddings'',
             ''sporting-regulations-embeddings-jl357j9.svc.aped-4627-b74a.pinecone.io''),
        [Print (Connecting_to_host
                  ''sporting-regulations-embeddings-jl357j9.svc.aped-4627-b74a.pinecone.io''),
         Index_handle ''sporting-regulations-embeddings''
           ''sporting-regulations-embeddings-jl357j9.svc.aped-4627-b74a.pinecone.io''])"
  "get_pinecone_index example_config ''technical-regulations-embeddings''
     = (Inr (''technical-regulations-embeddings'',
             ''technical-regulations-embeddings-jl357j9.svc.aped-4627-b74a.pinecone.io''),
        [Print (Connecting_to_host
                  ''technical-regulations-embeddings-jl357j9.svc.aped-4627-b74a.pinecone.io''),
         Index_handle ''technical-regulations-embeddings''
           ''technical-regulations-embeddings-jl357j9.svc.aped-4627-b74a.pinecone.io''])"
  "get_pinecone_index example_config ''financial-regulations-embeddings''
     = (Inr (''financial-regulations-embeddings'',
             ''financial-regulations-embeddings-jl357j9.svc.aped-4627-b74a.pinecone.io''),
        [Print (Connecting_to_host
                  ''financial-regulations-embeddings-jl357j9.svc.aped-4627-b74a.pinecone.io''),
         Index_handle ''financial-regulations-embeddings''
           ''financial-regulations-embeddings-jl357j9.svc.aped-4627-b74a.pinecone.io''])"
  by (simp_all add: get_pinecone_index_def example_config_def falsy_def INDEX_HOSTS_def)

lemma example_per_index:
  "fst (query_pinecone example_config (example_services emb)
          ''sporting-regulations-embeddings'' e (Some []) 10) = sporting_matches"
  "fst (query_pinecone example_config (example_services emb)
          ''technical-regulations-embeddings'' e (Some []) 10) = technical_matches"
  "fst (query_pinecone example_config (example_services emb)
          ''financial-regulations-embeddings'' e (Some []) 10) = []"
  by (simp_all add: query_pinecone_def example_get_pinecone_index example_services_def
      example_query_api_def keyword_filter_Nil sporting_matches_def technical_matches_def)

lemma example_sorted:
  "take 5 (sorted_reverse get_score (sporting_matches @ technical_matches))
     = [mk_match ''s1'' 9 ''Minimum weight'', mk_match ''s2'' 8 ''Safety car'',
        mk_match ''t1'' 8 ''Minimum weight'', mk_match ''s3'' 7 ''Car WEIGHT check'',
        mk_match ''s4'' 6 ''Safety car'']"
  by (simp add: sorted_reverse_def sporting_matches_def technical_matches_def mk_match_def
      get_score_def)

theorem fetch_returns_top5_stable_witness:
  "fst (generate_embeddings_openai (example_services (Inr [[1, 0]])) ''Minimum weight?'')
     = Some [1, 0]
   \<and> [1, 0] \<noteq> ([] :: real list)
   \<and> fst (fetch_relevant_documents example_config (example_services (Inr [[1, 0]]))
            ''Minimum weight?'')
       = [mk_match ''s1'' 9 ''Minimum weight'', mk_match ''s2'' 8 ''Safety car'',
          mk_match ''t1'' 8 ''Minimum weight'', mk_match ''s3'' 7 ''Car WEIGHT check'',
          mk_match ''s4'' 6 ''Safety car'']
   \<and> prefix (filter (\<lambda>m. get_score m = 8)
               (fst (fetch_relevant_documents example_config (example_services (Inr [[1, 0]]))
                      ''Minimum weight?'')))
            (filter (\<lambda>m. get_score m = 8) (sporting_matches @ technical_matches))"
proof -
  have h1: "fst (generate_embeddings_openai (example_services (Inr [[1, 0]])) ''Minimum weight?'')
     = Some [1, 0]"
    by (simp add: example_embedding)
  have h2: "[1, 0] \<noteq> ([] :: real list)" by simp
  have v: "fst (fetch_relevant_documents example_config (example_services (Inr [[1, 0]]))
            ''Minimum weight?'')
       = [mk_match ''s1'' 9 ''Minimum weight'', mk_match ''s2'' 8 ''Safety car'',
          mk_match ''t1'' 8 ''Minimum weight'', mk_match ''s3'' 7 ''Car WEIGHT check'',
          mk_match ''s4'' 6 ''Safety car'']"
    using fetch_result[OF h1 h2, of example_config]
    by (simp add: INDEX_NAMES_def per_index_def example_per_index example_sorted)
  have "\<forall>s. prefix (filter (\<lambda>m. get_score m = s)
               (fst (fetch_relevant_documents example_config (example_services (Inr [[1, 0]]))
                      ''Minimum weight?'')))
            (filter (\<lambda>m. get_score m = s) (sporting_matches @ technical_matches))"
    using fetch_returns_top5_stable[OF h1 h2, of example_config]
    by (simp add: Let_def example_per_index)
  then have "prefix (filter (\<lambda>m. get_score m = 8)
               (fst (fetch_relevant_documents example_config (example_services (Inr [[1, 0]]))
                      ''Minimum weight?'')))
            (filter (\<lambda>m. get_score m = 8) (sporting_matches @ technical_matches))"
    by (rule spec)
  with h1 h2 v show ?thesis by blast
qed


subsection \<open>Context assembly\<close>

lemma collect_contexts_inv:
  assumes "collect_contexts ms seen contexts = Inr r"
    and "seen = set contexts" and "distinct contexts"
    and "\<forall>b\<in>set contexts. b \<noteq> [] \<and> Q b"
    and "\<And>m md. m \<in> set ms \<Longrightarrow> metadata m = Some md \<Longrightarrow> Q (get_text md)"
  shows "distinct r \<and> (\<forall>b\<in>set r. b \<noteq> [] \<and> Q b)"
  using assms
proof (induction ms arbitrary: seen contexts)
  case Nil
  then show ?case by simp
next
  case (Cons m ms)
  from Cons.prems(1) obtain md where md: "metadata m = Some md"
    by (cases "metadata m") auto
  have Qm: "Q (get_text md)" using Cons.prems(5)[of m md] md by simp
  have Qms: "Q (get_text md')" if "m' \<in> set ms" "metadata m' = Some md'" for m' md'
    using Cons.prems(5)[of m' md'] that by simp
  show ?case
  proof (cases "get_text md \<noteq> [] \<and> get_text md \<notin> seen")
    case True
    then have step:
      "collect_contexts ms (insert (get_text md) seen) (contexts @ [get_text md]) = Inr r"
      using Cons.prems(1) md by (simp add: Let_def)
    show ?thesis
    proof (rule Cons.IH[OF step])
      show "insert (get_text md) seen = set (contexts @ [get_text md])"
        using Cons.prems(2) by simp
      show "distinct (contexts @ [get_text md])"
        using Cons.prems(2,3) True by simp
      show "\<forall>b\<in>set (contexts @ [get_text md]). b \<noteq> [] \<and> Q b"
        using Cons.prems(4) True Qm by simp
    qed (rule Qms)
  next
    case False
    then have step: "collect_contexts ms seen contexts = Inr r"
      using Cons.prems(1) md by (auto simp: Let_def)
    show ?thesis
      by (rule Cons.IH[OF step Cons.prems(2,3,4)]) (rule Qms)
  qed
qed

lemma collect_contexts_total:
  "\<forall>m\<in>set ms. metadata m \<noteq> None \<Longrightarrow> \<exists>r. collect_contexts ms seen contexts = Inr r"
  by (induction ms arbitrary: seen contexts) (auto simp: Let_def)

text \<open>
  Claim C5. For every list of matches, the string \<open>get_combined_context\<close> returns is the
  join of at most 3 context blocks, no two of them equal, each the non-empty metadata text
  of one of the matches. The function returns a string whenever every match carries
  metadata (\<^verbatim>\<open>match["metadata"]\<close> raises KeyError otherwise).
\<close>

theorem get_combined_context_distinct_at_most_3:
  "((\<forall>m\<in>set matches. metadata m \<noteq> None) \<longrightarrow> (\<exists>s. get_combined_context matches = Inr s))
   \<and> (\<forall>s. get_combined_context matches = Inr s \<longrightarrow>
        (\<exists>blocks. s = join [newline, newline] blocks
           \<and> distinct blocks
           \<and> length blocks \<le> 3
           \<and> (\<forall>b\<in>set blocks. b \<noteq> []
                 \<and> (\<exists>m\<in>set matches. metadata m = Some (Some b)))))"
proof (intro conjI impI allI)
  assume "\<forall>m\<in>set matches. metadata m \<noteq> None"
  then obtain r where "collect_contexts matches {} [] = Inr r"
    using collect_contexts_total by blast
  then show "\<exists>s. get_combined_context matches = Inr s"
    by (simp add: get_combined_context_def)
next
  fix s
  assume s: "get_combined_context matches = Inr s"
  then obtain r where r: "collect_contexts matches {} [] = Inr r"
    and sr: "s = join [newline, newline] (take 3 r)"
    by (auto simp: get_combined_context_def split: sum.splits)
  define Q where "Q = (\<lambda>b. b = [] \<or> (\<exists>m\<in>set matches. metadata m = Some (Some b)))"
  have "distinct r \<and> (\<forall>b\<in>set r. b \<noteq> [] \<and> Q b)"
  proof (rule collect_contexts_inv[OF r])
    fix m md
    assume "m \<in> set matches" "metadata m = Some md"
    then show "Q (get_text md)"
      by (cases md) (auto simp: Q_def get_text_def)
  qed simp_all
  then have "distinct (take 3 r)" and "\<forall>b\<in>set (take 3 r). b \<noteq> [] \<and> Q b"
    by (auto dest: in_set_takeD)
  then have "\<forall>b\<in>set (take 3 r). b \<noteq> [] \<and> (\<exists>m\<in>set matches. metadata m = Some (Some b))"
    by (auto simp: Q_def)
  with sr \<open>distinct (take 3 r)\<close>
  show "\<exists>blocks. s = join [newline, newline] blocks \<and> distinct blocks \<and> length blocks \<le> 3
           \<and> (\<forall>b\<in>set blocks. b \<noteq> [] \<and> (\<exists>m\<in>set matches. metadata m = Some (Some b)))"
    by (intro exI[of _ "take 3 r"]) simp
qed

lemma example_context:
  "get_combined_context sporting_matches
     = Inr (''Minimum weight'' @ [newline, newline] @ ''Safety car''
            @ [newline, newline] @ ''Car WEIGHT check'')"
  by (simp add: get_combined_context_def sporting_matches_def mk_match_def get_text_def)

theorem get_combined_context_distinct_at_most_3_witness:
  "list_all (\<lambda>m. metadata m \<noteq> None) sporting_matches
   \<and> get_combined_context sporting_matches
       = Inr (''Minimum weight'' @ [newline, newline] @ ''Safety car''
              @ [newline, newline] @ ''Car WEIGHT check'')
   \<and> (\<exists>blocks. ''Minimum weight'' @ [newline, newline] @ ''Safety car''
                  @ [newline, newline] @ ''Car WEIGHT check'' = join [newline, newline] blocks
         \<and> distinct blocks \<and> length blocks \<le> 3
         \<and> (\<forall>b\<in>set blocks. b \<noteq> []
               \<and> (\<exists>m\<in>set sporting_matches. metadata m = Some (Some b))))"
proof -
  have h: "\<forall>m\<in>set sporting_matches. metadata m \<noteq> None"
    by (simp add: sporting_matches_def mk_match_def)
  note v = example_context
  from get_combined_context_distinct_at_most_3[of sporting_matches] v
  have "\<exists>blocks. ''Minimum weight'' @ [newline, newline] @ ''Safety car''
                  @ [newline, newline] @ ''Car WEIGHT check'' = join [newline, newline] blocks
         \<and> distinct blocks \<and> length blocks \<le> 3
         \<and> (\<forall>b\<in>set blocks. b \<noteq> []
               \<and> (\<exists>m\<in>set sporting_matches. metadata m = Some (Some b)))"
    by blast
  moreover have "list_all (\<lambda>m. metadata m \<noteq> None) sporting_matches"
    using h by (simp add: list_all_iff)
  ultimately show ?thesis using v by blast
qed

subsection \<open>Answer synthesis\<close>

text \<open>
  Claim C6. For every query, \<open>generate_answer_with_openai\<close> called with the empty context
  returns the fixed string "No relevant information found in the database." and causes no
  event: the chat-completion API is not called.
\<close>

theorem generate_answer_empty_context:
  "generate_answer_with_openai sv [] query =
     (''No relevant information found in the database.'', [])"
  by (simp add: generate_answer_with_openai_def no_information_def)

theorem generate_answer_empty_context_witness:
  "generate_answer_with_openai (example_services (Inr [[1, 0]])) [] ''What is DRS?'' =
     (''No relevant information found in the database.'', [])"
  by (rule generate_answer_empty_context)

subsection \<open>Index provisioning\<close>

text \<open>
  Claim C7. Index provisioning is idempotent. For every index name (so for each of the
  three fixed ones) that the service does not list, two runs of \<open>ensure_index_exists\<close>
  with the default dimension and metric, one after the other, make exactly one create
  call, with dimension 1536 and metric cosine, and one "already exists" line; the
  second run makes no create call and leaves the listed indexes as the first run left them.
\<close>

theorem ensure_index_exists_idempotent:
  assumes "index_name \<notin> set indexes"
  shows "(let (indexes1, evs1) =
                ensure_index_exists cfg index_name default_dimension default_metric indexes;
              (indexes2, evs2) =
                ensure_index_exists cfg index_name default_dimension default_metric indexes1
          in filter is_create (evs1 @ evs2) =
               [Create_index index_name 1536 ''cosine'' ''aws'' (PINECONE_ENVIRONMENT cfg)]
             \<and> filter is_already_exists (evs1 @ evs2) = [Print (Index_already_exists index_name)]
             \<and> evs2 = [List_indexes, Print (Index_already_exists index_name)]
             \<and> indexes2 = indexes1
             \<and> set indexes1 = insert index_name (set indexes))"
  using assms
  by (simp add: ensure_index_exists_def default_dimension_def default_metric_def)

theorem ensure_index_exists_idempotent_witness:
  "''technical-regulations-embeddings'' \<notin> set [''sporting-regulations-embeddings'']
   \<and> (let (indexes1, evs1) =
             ensure_index_exists example_config ''technical-regulations-embeddings''
               default_dimension default_metric [''sporting-regulations-embeddings''];
           (indexes2, evs2) =
             ensure_index_exists example_config ''technical-regulations-embeddings''
               default_dimension default_metric indexes1
       in filter is_create (evs1 @ evs2) =
            [Create_index ''technical-regulations-embeddings'' 1536 ''cosine'' ''aws''
               (PINECONE_ENVIRONMENT example_config)]
          \<and> filter is_already_exists (evs1 @ evs2)
              = [Print (Index_already_exists ''technical-regulations-embeddings'')]
          \<and> evs2 = [List_indexes, Print (Index_already_exists ''technical-regulations-embeddings'')]
          \<and> indexes2 = indexes1
          \<and> set indexes1 = insert ''technical-regulations-embeddings''
                              (set [''sporting-regulations-embeddings'']))"
proof -
  have h: "''technical-regulations-embeddings'' \<notin> set [''sporting-regulations-embeddings'']"
    by simp
  show ?thesis
    by (intro conjI h ensure_index_exists_idempotent[OF h])
qed


subsection \<open>What the orchestrator asks of each index\<close>

lemma INDEX_NAMES_hosts: "n \<in> set INDEX_NAMES \<Longrightarrow> \<exists>host. INDEX_HOSTS n = Some host"
  by (auto simp: INDEX_NAMES_def INDEX_HOSTS_def)

lemma contains_keyword_Nil: "contains_keyword lower [] m = False"
  by (simp add: contains_keyword_def split: option.splits)

lemma query_pinecone_no_keywords:
  assumes "\<not> falsy (PINECONE_ENVIRONMENT cfg)" and "INDEX_HOSTS n = Some host"
  shows "fst (query_pinecone cfg sv n e (Some []) k) = take k (returned_matches sv n e k)"
    and "filter is_query (snd (query_pinecone cfg sv n e (Some []) k)) = [Index_query n e k True]"
  by (simp_all add: query_pinecone_def get_pinecone_index_ok[OF assms] returned_matches_def
      assms(2) keyword_filter_Nil split: sum.splits option.splits)

lemma search_indexes_queries:
  assumes "\<not> falsy (PINECONE_ENVIRONMENT cfg)"
    and "\<forall>n\<in>set ns. \<exists>host. INDEX_HOSTS n = Some host"
  shows "filter is_query (snd (search_indexes cfg sv e ns acc))
         = map (\<lambda>n. Index_query n e 10 True) ns"
  using assms(2)
proof (induction ns arbitrary: acc)
  case Nil
  show ?case by simp
next
  case (Cons n ns)
  obtain results evs where q: "query_pinecone cfg sv n e (Some []) 10 = (results, evs)"
    by (cases "query_pinecone cfg sv n e (Some []) 10")
  obtain final evs' where s: "search_indexes cfg sv e ns (acc @ results) = (final, evs')"
    by (cases "search_indexes cfg sv e ns (acc @ results)")
  from Cons.prems obtain host where host: "INDEX_HOSTS n = Some host" by auto
  have "filter is_query evs = [Index_query n e 10 True]"
    using query_pinecone_no_keywords(2)[OF assms(1) host, of sv e 10] q by simp
  moreover have "filter is_query evs' = map (\<lambda>n. Index_query n e 10 True) ns"
    using Cons.IH[of "acc @ results"] Cons.prems s by simp
  ultimately show ?case using q s by simp
qed

lemma generate_embeddings_no_query:
  "filter is_query (snd (generate_embeddings_openai sv q)) = []"
  by (simp add: generate_embeddings_openai_def split: sum.splits list.splits)

lemma fetch_queries:
  assumes "fst (generate_embeddings_openai sv q) = Some e" and "e \<noteq> []"
    and "\<not> falsy (PINECONE_ENVIRONMENT cfg)"
  shows "filter is_query (snd (fetch_relevant_documents cfg sv q))
         = map (\<lambda>n. Index_query n e 10 True) INDEX_NAMES"
proof -
  obtain evs where g: "generate_embeddings_openai sv q = (Some e, evs)"
    using assms(1) by (cases "generate_embeddings_openai sv q") auto
  have evs: "filter is_query evs = []"
    using generate_embeddings_no_query[of sv q] g by simp
  obtain final evs' where s: "search_indexes cfg sv e INDEX_NAMES [] = (final, evs')"
    by (cases "search_indexes cfg sv e INDEX_NAMES []")
  have "filter is_query evs' = map (\<lambda>n. Index_query n e 10 True) INDEX_NAMES"
    using search_indexes_queries[OF assms(3), of INDEX_NAMES sv e "[]"] INDEX_NAMES_hosts s
    by simp
  then show ?thesis
    using g s evs assms(2) by (simp add: fetch_relevant_documents_def)
qed

text \<open>
  Claim C1, as the code has it. For every query whose embedding is obtained, the
  orchestrator asks each of the three fixed indexes, in their order, for the top 10 nearest
  neighbours; the result of an index is its matches with a keyword before those without
  one, cut to 10 entries (the \<open>top_k\<close> it was called with, not 5); the results of the three
  indexes together are sorted by descending score and cut to 5.
\<close>

theorem fetch_queries_top10_per_index:
  assumes "fst (generate_embeddings_openai sv query) = Some e" and "e \<noteq> []"
    and "\<not> falsy (PINECONE_ENVIRONMENT cfg)"
  shows "filter is_query (snd (fetch_relevant_documents cfg sv query))
           = [Index_query ''sporting-regulations-embeddings'' e 10 True,
              Index_query ''technical-regulations-embeddings'' e 10 True,
              Index_query ''financial-regulations-embeddings'' e 10 True]
         \<and> (\<forall>n\<in>set INDEX_NAMES.
               per_index cfg sv e n
                 = take 10 (filter (contains_keyword (str_lower sv) [])
                              (returned_matches sv n e 10)
                             @ filter (\<lambda>m. \<not> contains_keyword (str_lower sv) [] m)
                                 (returned_matches sv n e 10)))
         \<and> fst (fetch_relevant_documents cfg sv query)
             = take 5 (sorted_reverse get_score
                         (concat (map (per_index cfg sv e) INDEX_NAMES)))"
proof (intro conjI ballI)
  show "filter is_query (snd (fetch_relevant_documents cfg sv query))
           = [Index_query ''sporting-regulations-embeddings'' e 10 True,
              Index_query ''technical-regulations-embeddings'' e 10 True,
              Index_query ''financial-regulations-embeddings'' e 10 True]"
    using fetch_queries[OF assms] by (simp add: INDEX_NAMES_def)
next
  fix n
  assume "n \<in> set INDEX_NAMES"
  then obtain host where host: "INDEX_HOSTS n = Some host"
    using INDEX_NAMES_hosts by blast
  show "per_index cfg sv e n
          = take 10 (filter (contains_keyword (str_lower sv) []) (returned_matches sv n e 10)
                      @ filter (\<lambda>m. \<not> contains_keyword (str_lower sv) [] m)
                          (returned_matches sv n e 10))"
    using query_pinecone_no_keywords(1)[OF assms(3) host, of sv e 10]
    by (simp add: per_index_def contains_keyword_Nil)
next
  show "fst (fetch_relevant_documents cfg sv query)
          = take 5 (sorted_reverse get_score (concat (map (per_index cfg sv e) INDEX_NAMES)))"
    using assms(1,2) by (rule fetch_result)
qed

theorem fetch_queries_top10_per_index_witness:
  "fst (generate_embeddings_openai (example_services (Inr [[1, 0]])) ''Minimum weight?'')
     = Some [1, 0]
   \<and> [1, 0] \<noteq> ([] :: real list)
   \<and> \<not> falsy (PINECONE_ENVIRONMENT example_config)
   \<and> filter is_query
        (snd (fetch_relevant_documents example_config (example_services (Inr [[1, 0]]))
               ''Minimum weight?''))
       = [Index_query ''sporting-regulations-embeddings'' [1, 0] 10 True,
          Index_query ''technical-regulations-embeddings'' [1, 0] 10 True,
          Index_query ''financial-regulations-embeddings'' [1, 0] 10 True]
   \<and> per_index example_config (example_services (Inr [[1, 0]])) [1, 0]
        ''sporting-regulations-embeddings''
       = take 10 sporting_matches"
proof -
  have h1: "fst (generate_embeddings_openai (example_services (Inr [[1, 0]])) ''Minimum weight?'')
     = Some [1, 0]"
    by (simp add: example_embedding)
  have h2: "[1, 0] \<noteq> ([] :: real list)" by simp
  have h3: "\<not> falsy (PINECONE_ENVIRONMENT example_config)"
    by (simp add: falsy_def example_config_def)
  have r: "returned_matches (example_services (Inr [[1, 0]]))
             ''sporting-regulations-embeddings'' [1, 0] 10 = sporting_matches"
    by (simp add: returned_matches_def INDEX_HOSTS_def example_services_def
        example_query_api_def)
  show ?thesis
    using h1 h2 h3 r fetch_queries_top10_per_index[OF h1 h2 h3]
    by (simp add: INDEX_NAMES_def contains_keyword_Nil)
qed

text \<open>
  The claim's cut of each index's list to 5 entries fails: an index that answers the top-10
  request with six matches has all six in the result of \<open>query_pinecone\<close>, and all six are
  printed as the results of that index by \<open>fetch_relevant_documents\<close>.
\<close>

theorem per_index_truncation_counterexample:
  "fst (query_pinecone example_config (example_services (Inr [[1, 0]]))
          ''sporting-regulations-embeddings'' [1, 0] (Some []) 10) = sporting_matches
   \<and> length sporting_matches = 6
   \<and> \<not> length (fst (query_pinecone example_config (example_services (Inr [[1, 0]]))
                      ''sporting-regulations-embeddings'' [1, 0] (Some []) 10)) \<le> 5"
  by (simp add: example_per_index) (simp add: sporting_matches_def)

subsection \<open>Start-up\<close>

text \<open>
  Claim C8, as the code has it. At process start, when the OpenAI API key, the Pinecone
  API key or the Pinecone environment string is absent (or empty), module initialisation
  raises ValueError before any index call and before the user interface runs. The AWS
  access key, secret key and region are not checked at start-up.
\<close>

theorem startup_validates_openai_pinecone:
  assumes "falsy (env ''OPENAI_API_KEY'') \<or> falsy (env ''PINECONE_API_KEY'')
           \<or> falsy (env ''PINECONE_ENV'')"
  shows "landing env indexes = (Inl ValueError, [])"
  using assms by (auto simp: landing_def module_init_def load_config_def)

theorem startup_validates_openai_pinecone_witness:
  "falsy ((example_environ(''PINECONE_ENV'' := None)) ''PINECONE_ENV'')
   \<and> landing (example_environ(''PINECONE_ENV'' := None)) [] = (Inl ValueError, [])"
proof -
  have h: "falsy ((example_environ(''PINECONE_ENV'' := None)) ''PINECONE_ENV'')"
    by (simp add: falsy_def)
  show ?thesis
    by (intro conjI h startup_validates_openai_pinecone disjI2)
qed

text \<open>
  With the three AWS variables absent and the OpenAI and Pinecone variables set, start-up
  raises nothing: the indexes are provisioned, the user interface runs, and
  \<open>init_s3_client\<close> hands the absent values on.
\<close>

theorem startup_missing_aws_counterexample:
  "example_environ ''AWS_ACCESS_KEY_ID'' = None
   \<and> example_environ ''AWS_SECRET_ACCESS_KEY'' = None
   \<and> example_environ ''AWS_REGION'' = None
   \<and> fst (landing example_environ []) = Inr (example_config, INDEX_NAMES)
   \<and> last (snd (landing example_environ [])) = Ui_run
   \<and> init_s3_client example_environ
       = \<lparr>aws_access_key_id = None, aws_secret_access_key = None, region_name = None\<rparr>"
  by (simp add: example_environ_def example_config_def landing_def module_init_def
      load_config_def falsy_def INDEX_NAMES_def ensure_index_exists_def init_s3_client_def)


end
